theory Spec2Isabelle
  imports Complex_Main
begin

section \<open>Pi Guard: a UPS power-guard daemon (piguard.py)\<close>

text \<open>
  The daemon is one Python class, \<^verbatim>\<open>PiGuard\<close>. This theory embeds the parts of it that
  decide behaviour: the clamping of the configuration values (\<^verbatim>\<open>load_config\<close>), the
  GPIO interrupt handler (\<^verbatim>\<open>isr\<close>), the two bus reads (\<^verbatim>\<open>read_voltage\<close>,
  \<^verbatim>\<open>read_ups_mode\<close>) and the polling loop of \<^verbatim>\<open>main\<close>.

  Python integers are \<open>int\<close>. What the outside world does (the level of the pulse line,
  the outcome of a bus transfer or of a file append, the clock) is an explicit input of
  each function; what the program does to the outside world is an \<open>event\<close> appended to
  a trace carried in the state.
\<close>

subsection \<open>Class constants\<close>

definition MAX_SHUTDOWN_DELAY :: int where "MAX_SHUTDOWN_DELAY = 235"
definition MIN_SHUTDOWN_DELAY :: int where "MIN_SHUTDOWN_DELAY = 1"
definition MAX_WATCHDOG_RPI :: int where "MAX_WATCHDOG_RPI = 10"
definition MIN_WATCHDOG_RPI :: int where "MIN_WATCHDOG_RPI = 3"
definition MAX_LOOP_RUN_UPS :: int where "MAX_LOOP_RUN_UPS = 20"
definition MIN_LOOP_RUN_UPS :: int where "MIN_LOOP_RUN_UPS = 1"
definition MAX_POST_SHUTDOWN :: int where "MAX_POST_SHUTDOWN = 254"
definition MIN_POST_SHUTDOWN :: int where "MIN_POST_SHUTDOWN = 10"
definition MAX_FREC_HISTORY :: int where "MAX_FREC_HISTORY = 3600"
definition MIN_FREC_HISTORY :: int where "MIN_FREC_HISTORY = 20"

definition CLOCK_PIN :: int where "CLOCK_PIN = 27"
definition PULSE_PIN :: int where "PULSE_PIN = 22"

subsection \<open>Python numbers, \<^verbatim>\<open>min\<close> and \<^verbatim>\<open>max\<close>\<close>

text \<open>
  \<^verbatim>\<open>float(s)\<close> yields a finite number, an infinity or a NaN (\<^verbatim>\<open>float("nan")\<close> parses).
  \<^verbatim>\<open>load_config\<close> only compares such a value with the integer limits, so a finite
  float is represented by the real number it denotes; no rounding takes place.
  A comparison with a NaN operand is false.
\<close>

datatype pynum = Fin real | PosInf | NegInf | NaN

fun py_lt :: "pynum \<Rightarrow> pynum \<Rightarrow> bool" where
  "py_lt (Fin a) (Fin b) = (a < b)"
| "py_lt NaN _ = False"
| "py_lt _ NaN = False"
| "py_lt PosInf _ = False"
| "py_lt _ PosInf = True"
| "py_lt _ NegInf = False"
| "py_lt NegInf _ = True"

definition py_gt :: "pynum \<Rightarrow> pynum \<Rightarrow> bool" where
  "py_gt a b = py_lt b a"

fun py_le :: "pynum \<Rightarrow> pynum \<Rightarrow> bool" where
  "py_le (Fin a) (Fin b) = (a \<le> b)"
| "py_le NaN _ = False"
| "py_le _ NaN = False"
| "py_le NegInf _ = True"
| "py_le _ PosInf = True"
| "py_le _ NegInf = False"
| "py_le PosInf _ = False"

definition py_ge :: "pynum \<Rightarrow> pynum \<Rightarrow> bool" where
  "py_ge a b = py_le b a"

text \<open>
  The builtin \<^verbatim>\<open>min(a, b)\<close> keeps \<^verbatim>\<open>a\<close> unless \<^verbatim>\<open>b < a\<close>; \<^verbatim>\<open>max(a, b)\<close> keeps
  \<^verbatim>\<open>a\<close> unless \<^verbatim>\<open>b > a\<close>. On integers these are the usual minimum and maximum.
\<close>

definition py_min :: "pynum \<Rightarrow> pynum \<Rightarrow> pynum" where
  "py_min a b = (if py_lt b a then b else a)"

definition py_max :: "pynum \<Rightarrow> pynum \<Rightarrow> pynum" where
  "py_max a b = (if py_gt b a then b else a)"

definition py_min_int :: "int \<Rightarrow> int \<Rightarrow> int" where
  "py_min_int a b = (if b < a then b else a)"

definition py_max_int :: "int \<Rightarrow> int \<Rightarrow> int" where
  "py_max_int a b = (if b > a then b else a)"

subsection \<open>\<^verbatim>\<open>load_config\<close>: clamping the configuration values\<close>

text \<open>
  The raw configuration is the dictionary \<^verbatim>\<open>config_vars\<close> after \<^verbatim>\<open>int(...)\<close> or
  \<^verbatim>\<open>float(...)\<close> has been applied to each entry that \<^verbatim>\<open>load_config\<close> reads. Such an
  entry is a number, or the exception raised by the lookup or by the conversion
  (\<^verbatim>\<open>KeyError\<close> for a missing key, \<^verbatim>\<open>ValueError\<close> for text that is no number), which
  \<^verbatim>\<open>load_config\<close> does not catch.
\<close>

datatype py_exn = KeyError | ValueError | OSError | KeyboardInterrupt

record raw_config =
  raw_SHUTDOWN_DELAY :: "py_exn + int"
  raw_WATCHDOG_RPI :: "py_exn + int"
  raw_LOOP_RUN_UPS :: "py_exn + int"
  raw_POST_SHUTDOWN :: "py_exn + int"
  raw_FREC_HISTORY :: "py_exn + pynum"
  raw_I2C_SEND_ENABLED :: "string option"

record parameters =
  SHUTDOWN_DELAY :: int
  WATCHDOG_RPI :: int
  LOOP_RUN_UPS :: int
  POST_SHUTDOWN :: int
  FREC_HISTORY :: pynum
  I2C_SEND_ENABLED :: bool

definition clamp_int :: "int \<Rightarrow> int \<Rightarrow> int \<Rightarrow> int" where
  \<comment> \<open>\<^verbatim>\<open>max(lo, min(x, hi))\<close>\<close>
  "clamp_int lo x hi = py_max_int lo (py_min_int x hi)"

definition clamp_num :: "int \<Rightarrow> pynum \<Rightarrow> int \<Rightarrow> pynum" where
  "clamp_num lo x hi = py_max (Fin (of_int lo)) (py_min x (Fin (of_int hi)))"

definition ascii_lower :: "char \<Rightarrow> char" where
  "ascii_lower c =
     (let n = of_char c :: nat in if 65 \<le> n \<and> n \<le> 90 then char_of (n + 32) else c)"

definition i2c_send_enabled :: "string option \<Rightarrow> bool" where
  \<comment> \<open>\<^verbatim>\<open>config_vars.get("I2C_SEND_ENABLED", "True").lower() == "true"\<close>\<close>
  "i2c_send_enabled v = (map ascii_lower (case v of None \<Rightarrow> ''True'' | Some t \<Rightarrow> t) = ''true'')"

definition load_config :: "raw_config \<Rightarrow> py_exn + parameters" where
  "load_config raw =
     (case raw_SHUTDOWN_DELAY raw of Inl e \<Rightarrow> Inl e | Inr sd \<Rightarrow>
      case raw_WATCHDOG_RPI raw of Inl e \<Rightarrow> Inl e | Inr wd \<Rightarrow>
      case raw_LOOP_RUN_UPS raw of Inl e \<Rightarrow> Inl e | Inr lr \<Rightarrow>
      case raw_POST_SHUTDOWN raw of Inl e \<Rightarrow> Inl e | Inr ps \<Rightarrow>
      case raw_FREC_HISTORY raw of Inl e \<Rightarrow> Inl e | Inr fh \<Rightarrow>
        Inr \<lparr> SHUTDOWN_DELAY = clamp_int MIN_SHUTDOWN_DELAY sd MAX_SHUTDOWN_DELAY,
              WATCHDOG_RPI = clamp_int MIN_WATCHDOG_RPI wd MAX_WATCHDOG_RPI,
              LOOP_RUN_UPS = clamp_int MIN_LOOP_RUN_UPS lr MAX_LOOP_RUN_UPS,
              POST_SHUTDOWN = clamp_int MIN_POST_SHUTDOWN ps MAX_POST_SHUTDOWN,
              FREC_HISTORY = clamp_num MIN_FREC_HISTORY fh MAX_FREC_HISTORY,
              I2C_SEND_ENABLED = i2c_send_enabled (raw_I2C_SEND_ENABLED raw) \<rparr>)"

text \<open>A raw configuration all of whose entries converted to numbers.\<close>

definition numeric_config :: "int \<Rightarrow> int \<Rightarrow> int \<Rightarrow> int \<Rightarrow> pynum \<Rightarrow> string option \<Rightarrow> raw_config" where
  "numeric_config sd wd lr ps fh en =
     \<lparr> raw_SHUTDOWN_DELAY = Inr sd, raw_WATCHDOG_RPI = Inr wd, raw_LOOP_RUN_UPS = Inr lr,
       raw_POST_SHUTDOWN = Inr ps, raw_FREC_HISTORY = Inr fh, raw_I2C_SEND_ENABLED = en \<rparr>"

definition num_within :: "real \<Rightarrow> pynum \<Rightarrow> real \<Rightarrow> bool" where
  "num_within lo x hi = (case x of Fin r \<Rightarrow> lo \<le> r \<and> r \<le> hi | _ \<Rightarrow> False)"

subsection \<open>The start-up record of the power-event log\<close>

text \<open>
  \<^verbatim>\<open>main\<close> writes the applied parameters with an f-string; \<open>py_str\<close> is \<^verbatim>\<open>str\<close> on
  an integer. The timestamp is an input.
\<close>

definition digit_char :: "nat \<Rightarrow> char" where
  "digit_char d = ''0123456789'' ! d"

fun str_nat :: "nat \<Rightarrow> string" where
  "str_nat n = (if n < 10 then [digit_char n] else str_nat (n div 10) @ [digit_char (n mod 10)])"

declare str_nat.simps [simp del]

definition py_str :: "int \<Rightarrow> string" where
  "py_str i = (if i < 0 then CHR ''-'' # str_nat (nat (- i)) else str_nat (nat i))"

definition NL :: string where "NL = [CHR 0x0A]"
definition TAB :: string where "TAB = [CHR 0x09]"

definition startup_record :: "string \<Rightarrow> parameters \<Rightarrow> string" where
  "startup_record now p =
     (if SHUTDOWN_DELAY p < 181 then
        now @ NL @ TAB @ ''Shutdown delay: '' @ TAB @ py_str (SHUTDOWN_DELAY p) @ TAB @ ''[min]''
          @ NL @ TAB @ ''Watchdog Rpi: '' @ TAB @ TAB @ py_str (WATCHDOG_RPI p) @ TAB @ ''[min]''
          @ NL @ TAB @ ''Post Shutdown: '' @ TAB @ TAB @ py_str (POST_SHUTDOWN p) @ TAB @ ''[s]'' @ NL
      else
        now @ NL @ TAB @ ''Shutdown delay: '' @ TAB @ py_str (SHUTDOWN_DELAY p - 177) @ TAB @ ''[hrs]''
          @ NL @ TAB @ ''Watchdog Rpi: '' @ TAB @ TAB @ py_str (WATCHDOG_RPI p) @ TAB @ ''[min]''
          @ NL @ TAB @ ''Post Shutdown: '' @ TAB @ TAB @ py_str (POST_SHUTDOWN p) @ TAB @ ''[s]'' @ NL)"

subsection \<open>Program state, hardware and events\<close>

text \<open>
  The pulse pin (GPIO 22) is either an output driving \<open>pulse_out\<close> or an input with
  pull-up. Read as an output it returns the level it drives; read as an input it returns
  low exactly when the UPS pulls the line low (\<open>line_low\<close>), the pull-up holding it high
  otherwise. The GPIO library accepts \<^verbatim>\<open>GPIO.output\<close> only on a pin set up as an output;
  the handler is entered with the pin in that state (\<open>driving\<close> below), each run of the
  handler restores it, and the properties of the handler are stated for such states.
  The calls of the logger, the sleeps and the shutdown command are events that return.

  Clock readings (\<^verbatim>\<open>time.time()\<close>) and \<^verbatim>\<open>history_write\<close> are real numbers: the one
  subtraction the loop performs on them is taken as exact.

  A \<^verbatim>\<open>with open(path, "a+") as f: ... f.write(...) ...\<close> block can raise when the file
  is opened, in the \<^verbatim>\<open>write\<close> call, or when the block is left and the file is closed
  (the buffered text reaches the operating system at that point). \<open>file_outcome\<close> says
  which of these happens.
\<close>

datatype pin_dir = DirOut | DirIn

datatype file_outcome = FileOk | OpenRaises | WriteRaises | CloseRaises

datatype log_file = PowerLog | SampleLog
  \<comment> \<open>\<^verbatim>\<open>UPS_History_POWER.dbg\<close> and \<^verbatim>\<open>UPS_History.dbg\<close>\<close>

datatype log_entry =
    ShutdownEntry
  | Reading real int int
  \<comment> \<open>\<open>Reading now voltage mode\<close>: the line \<^verbatim>\<open>"{now}\tVoltaje: {volta:.1f}[V]\t\tModo: {mode}\n"\<close>
      of the polling loop, kept as the clock reading of the iteration and the two bytes read\<close>

datatype event =
    Acquire | Release
  | LogInfo | LogWarning | LogError
  | GpioOutput bool | GpioSetupIn | GpioSetupOut bool | GpioCleanup
  | Append log_file log_entry
  | Sleep real
  | Shutdown
  | BusWrite int | BusRead int

record pg_state =
  sqwave :: bool
  history_write :: real
  config :: parameters
  pulse_dir :: pin_dir
  pulse_out :: bool
  trace :: "event list"

definition emit :: "event \<Rightarrow> 'a pg_state_scheme \<Rightarrow> 'a pg_state_scheme" where
  "emit e s = s\<lparr>trace := trace s @ [e]\<rparr>"

definition gpio_input :: "bool \<Rightarrow> 'a pg_state_scheme \<Rightarrow> bool" where
  \<comment> \<open>\<^verbatim>\<open>GPIO.input(PULSE_PIN)\<close>\<close>
  "gpio_input line_low s = (case pulse_dir s of DirOut \<Rightarrow> pulse_out s | DirIn \<Rightarrow> \<not> line_low)"

definition gpio_output :: "bool \<Rightarrow> 'a pg_state_scheme \<Rightarrow> 'a pg_state_scheme" where
  \<comment> \<open>\<^verbatim>\<open>GPIO.output(PULSE_PIN, v)\<close>\<close>
  "gpio_output v s = emit (GpioOutput v) (s\<lparr>pulse_out := v\<rparr>)"

definition gpio_setup_in :: "'a pg_state_scheme \<Rightarrow> 'a pg_state_scheme" where
  \<comment> \<open>\<^verbatim>\<open>GPIO.setup(PULSE_PIN, GPIO.IN, pull_up_down=GPIO.PUD_UP)\<close>\<close>
  "gpio_setup_in s = emit GpioSetupIn (s\<lparr>pulse_dir := DirIn\<rparr>)"

definition gpio_setup_out :: "bool \<Rightarrow> 'a pg_state_scheme \<Rightarrow> 'a pg_state_scheme" where
  \<comment> \<open>\<^verbatim>\<open>GPIO.setup(PULSE_PIN, GPIO.OUT, initial=v)\<close>\<close>
  "gpio_setup_out v s = emit (GpioSetupOut v) (s\<lparr>pulse_dir := DirOut, pulse_out := v\<rparr>)"

text \<open>
  The state once \<^verbatim>\<open>__init__\<close> has run at time \<open>t0\<close> with the loaded parameters \<open>p\<close> and
  \<^verbatim>\<open>main\<close> has configured the pulse pin as an output at high level.
\<close>

definition armed :: "real \<Rightarrow> parameters \<Rightarrow> pg_state" where
  "armed t0 p =
     \<lparr> sqwave = True, history_write = t0 - 60, config = p,
       pulse_dir = DirOut, pulse_out = True, trace = [] \<rparr>"

subsection \<open>\<^verbatim>\<open>isr\<close>: the interrupt handler\<close>

record isr_env =
  line_low :: bool
  shutdown_log_io :: file_outcome

definition record_shutdown :: "file_outcome \<Rightarrow> 'a pg_state_scheme \<Rightarrow> 'a pg_state_scheme" where
  \<comment> \<open>the \<^verbatim>\<open>try: with open(...) as fb: fb.write(...) except Exception: log.error(...)\<close> of \<^verbatim>\<open>isr\<close>\<close>
  "record_shutdown io s =
     (case io of
        FileOk \<Rightarrow> emit (Append PowerLog ShutdownEntry) s
      | OpenRaises \<Rightarrow> emit LogError s
      | WriteRaises \<Rightarrow> emit LogError s
      | CloseRaises \<Rightarrow> emit LogError s)"

definition shutdown_branch :: "isr_env \<Rightarrow> 'a pg_state_scheme \<Rightarrow> 'a pg_state_scheme" where
  "shutdown_branch env s =
     (let s1 = emit LogWarning s;
          s2 = record_shutdown (shutdown_log_io env) s1;
          s3 = emit (Sleep 2) s2
      in emit Shutdown s3)"

definition isr :: "int \<Rightarrow> isr_env \<Rightarrow> 'a pg_state_scheme \<Rightarrow> 'a pg_state_scheme" where
  "isr channel env s =
     (if channel \<noteq> CLOCK_PIN then s
      else
        let s0 = emit Acquire s;
            s1 = s0\<lparr>sqwave := \<not> gpio_input (line_low env) s0\<rparr>;
            s2 = gpio_output False s1;
            s3 = gpio_setup_in s2;
            s4 = (if \<not> gpio_input (line_low env) s3 then shutdown_branch env s3 else s3);
            s5 = gpio_setup_out (sqwave s4) s4
        in emit Release s5)"

text \<open>The handler run once for each edge delivered to it, in order.\<close>

fun isr_run :: "(int \<times> isr_env) list \<Rightarrow> 'a pg_state_scheme \<Rightarrow> 'a pg_state_scheme" where
  "isr_run [] s = s"
| "isr_run ((channel, env) # edges) s = isr_run edges (isr channel env s)"

definition shutdown_count :: "'a pg_state_scheme \<Rightarrow> nat" where
  "shutdown_count s = length (filter (\<lambda>e. e = Shutdown) (trace s))"

definition samples_low :: "int \<times> isr_env \<Rightarrow> bool" where
  \<comment> \<open>an edge on the clock pin at which the pulse pin, read as an input, is low\<close>
  "samples_low edge = (fst edge = CLOCK_PIN \<and> line_low (snd edge))"

definition driving :: "'a pg_state_scheme \<Rightarrow> bool" where
  \<comment> \<open>between two edges: the pin is an output at the level stored in \<^verbatim>\<open>sqwave\<close>\<close>
  "driving s = (pulse_dir s = DirOut \<and> pulse_out s = sqwave s)"

subsection \<open>\<^verbatim>\<open>read_voltage\<close> and \<^verbatim>\<open>read_ups_mode\<close>\<close>

text \<open>
  A bus exchange writes the command byte, waits 200 ms and reads one byte. Either
  transfer can raise \<^verbatim>\<open>IOError\<close>: \<open>write_ok\<close> says whether the write goes through and
  \<open>read_reply\<close> is the byte read, or \<open>None\<close> when the read raises. Both methods catch the
  \<^verbatim>\<open>IOError\<close>, log it and return \<^verbatim>\<open>None\<close>.
\<close>

definition READ_VOLTAGE_CMD :: int where "READ_VOLTAGE_CMD = 0x01"
definition READ_MODE_CMD :: int where "READ_MODE_CMD = 0x02"

record bus_io =
  write_ok :: bool
  read_reply :: "int option"

definition read_voltage :: "bus_io \<Rightarrow> 'a pg_state_scheme \<Rightarrow> int option \<times> 'a pg_state_scheme" where
  "read_voltage io s =
     (if \<not> write_ok io then (None, emit LogError s)
      else
        let s1 = emit (BusWrite READ_VOLTAGE_CMD) s;
            s2 = emit (Sleep 0.2) s1
        in case read_reply io of
             None \<Rightarrow> (None, emit LogError s2)
           | Some vol \<Rightarrow> (Some vol, emit (BusRead vol) s2))"

definition read_ups_mode :: "bus_io \<Rightarrow> 'a pg_state_scheme \<Rightarrow> int option \<times> 'a pg_state_scheme" where
  "read_ups_mode io s =
     (if \<not> write_ok io then (None, emit LogError s)
      else
        let s1 = emit (BusWrite READ_MODE_CMD) s;
            s2 = emit (Sleep 0.2) s1
        in case read_reply io of
             None \<Rightarrow> (None, emit LogError s2)
           | Some modo \<Rightarrow> (Some modo, emit (BusRead modo) s2))"

subsection \<open>The polling loop of \<^verbatim>\<open>main\<close>\<close>

text \<open>
  One iteration of \<^verbatim>\<open>while True\<close> receives what the outside world does during it: the
  two bus exchanges, the reading of \<^verbatim>\<open>time.time()\<close>, the outcomes of the two file
  appends (used only if the append is attempted) and whether a \<^verbatim>\<open>KeyboardInterrupt\<close>
  arrives during the closing sleep. The loop state is the object state together with the
  local variable \<^verbatim>\<open>last_mode\<close>. An iteration ends in \<open>Inr\<close> (the loop goes on with the
  next iteration) or in \<open>Inl\<close> with the exception that leaves the \<^verbatim>\<open>while\<close>.

  The text of a line (the scaled voltage \<^verbatim>\<open>float(voltage) * 0.02\<close> with one decimal, and
  a timestamp taken with \<^verbatim>\<open>datetime.now()\<close> just before writing) is not rendered: a line is
  kept as the clock reading of its iteration and the two bytes read.
\<close>

record tick =
  voltage_io :: bus_io
  mode_io :: bus_io
  clock :: real
  power_log_io :: file_outcome
  sample_log_io :: file_outcome
  interrupt :: bool

type_synonym loop_state = "pg_state \<times> int option"

definition record_mode_change ::
  "file_outcome \<Rightarrow> real \<Rightarrow> int \<Rightarrow> int \<Rightarrow> loop_state \<Rightarrow> loop_state" where
  \<comment> \<open>the \<^verbatim>\<open>try: with open(...) as fb: fb.write(...); last_mode = mode except Exception:
      log.error(...)\<close> of the loop; the assignment follows the \<^verbatim>\<open>write\<close> call inside the
      \<^verbatim>\<open>with\<close> block, so it has run when the closing of the file raises\<close>
  "record_mode_change io now voltage mode st =
     (case st of (s, last_mode) \<Rightarrow>
        (case io of
           FileOk \<Rightarrow> (emit (Append PowerLog (Reading now voltage mode)) s, Some mode)
         | OpenRaises \<Rightarrow> (emit LogError s, last_mode)
         | WriteRaises \<Rightarrow> (emit LogError s, last_mode)
         | CloseRaises \<Rightarrow> (emit LogError s, Some mode)))"

definition record_sample ::
  "file_outcome \<Rightarrow> real \<Rightarrow> int \<Rightarrow> int \<Rightarrow> loop_state \<Rightarrow> (py_exn \<times> loop_state) + loop_state" where
  \<comment> \<open>the \<^verbatim>\<open>with open(...) as f: f.write(...)\<close> on the sample log, outside any \<^verbatim>\<open>try\<close>
      but the one around the whole loop\<close>
  "record_sample io now voltage mode st =
     (case st of (s, last_mode) \<Rightarrow>
        (case io of
           FileOk \<Rightarrow> Inr (emit (Append SampleLog (Reading now voltage mode)) s, last_mode)
         | OpenRaises \<Rightarrow> Inl (OSError, st)
         | WriteRaises \<Rightarrow> Inl (OSError, st)
         | CloseRaises \<Rightarrow> Inl (OSError, st)))"

definition loop_sleep :: "tick \<Rightarrow> loop_state \<Rightarrow> (py_exn \<times> loop_state) + loop_state" where
  \<comment> \<open>\<^verbatim>\<open>time.sleep(self.LOOP_RUN_UPS)\<close>\<close>
  "loop_sleep t st =
     (case st of (s, last_mode) \<Rightarrow>
        if interrupt t then Inl (KeyboardInterrupt, st)
        else Inr (emit (Sleep (of_int (LOOP_RUN_UPS (config s)))) s, last_mode))"

definition loop_body :: "tick \<Rightarrow> loop_state \<Rightarrow> (py_exn \<times> loop_state) + loop_state" where
  "loop_body t st =
     (case st of (s, last_mode) \<Rightarrow>
        if I2C_SEND_ENABLED (config s) then
          (case read_voltage (voltage_io t) s of (voltage, s1) \<Rightarrow>
           case read_ups_mode (mode_io t) s1 of (mode, s2) \<Rightarrow>
             (case (voltage, mode) of
                (Some v, Some m) \<Rightarrow>
                  let now = clock t in
                  if py_ge (Fin (now - history_write s2)) (FREC_HISTORY (config s2)) then
                    let s3 = s2\<lparr>history_write := now\<rparr>;
                        st4 = (if last_mode = None \<or> last_mode \<noteq> Some m
                               then record_mode_change (power_log_io t) now v m (s3, last_mode)
                               else (s3, last_mode))
                    in (case record_sample (sample_log_io t) now v m st4 of
                          Inl x \<Rightarrow> Inl x
                        | Inr st5 \<Rightarrow> loop_sleep t st5)
                  else loop_sleep t (s2, last_mode)
              | _ \<Rightarrow> loop_sleep t (s2, last_mode)))
        else loop_sleep t st)"

text \<open>
  The \<^verbatim>\<open>while True\<close> loop over the iterations the outside world provides. \<open>Inr\<close> means
  the loop is still running after the last of them.
\<close>

fun main_loop :: "tick list \<Rightarrow> loop_state \<Rightarrow> (py_exn \<times> loop_state) + loop_state" where
  "main_loop [] st = Inr st"
| "main_loop (t # ts) st =
     (case loop_body t st of Inl x \<Rightarrow> Inl x | Inr st' \<Rightarrow> main_loop ts st')"

text \<open>
  The \<^verbatim>\<open>try ... except KeyboardInterrupt ... finally\<close> around the loop: a
  \<^verbatim>\<open>KeyboardInterrupt\<close> is logged and \<^verbatim>\<open>main\<close> returns; any other exception passes
  through the \<^verbatim>\<open>finally\<close> clause and leaves \<^verbatim>\<open>main\<close>.
\<close>

datatype main_result =
    Running loop_state
  | Returned pg_state
  | Crashed py_exn pg_state

definition run_main_loop :: "tick list \<Rightarrow> pg_state \<Rightarrow> main_result" where
  "run_main_loop ticks s =
     (case main_loop ticks (s, None) of
        Inr st \<Rightarrow> Running st
      | Inl (e, (s', last_mode)) \<Rightarrow>
          if e = KeyboardInterrupt
          then Returned (emit GpioCleanup (emit LogInfo (emit LogInfo s')))
          else Crashed e (emit GpioCleanup (emit LogInfo s')))"

text \<open>Observations on a run, used to state properties.\<close>

definition new_events :: "'a pg_state_scheme \<Rightarrow> 'b pg_state_scheme \<Rightarrow> event list" where
  \<comment> \<open>the events of \<open>s'\<close> that come after those of \<open>s\<close>\<close>
  "new_events s s' = drop (length (trace s)) (trace s')"

definition state_of :: "(py_exn \<times> loop_state) + loop_state \<Rightarrow> loop_state" where
  "state_of r = (case r of Inl (e, st) \<Rightarrow> st | Inr st \<Rightarrow> st)"

fun is_sample_append :: "event \<Rightarrow> bool" where
  "is_sample_append (Append SampleLog entry) = True"
| "is_sample_append _ = False"

fun is_power_append :: "event \<Rightarrow> bool" where
  "is_power_append (Append PowerLog entry) = True"
| "is_power_append _ = False"

definition quiet :: "event list \<Rightarrow> bool" where
  \<comment> \<open>no line is appended to either log\<close>
  "quiet es = (\<forall>e \<in> set es. \<not> is_sample_append e \<and> \<not> is_power_append e)"

definition bus_fails :: "bus_io \<Rightarrow> bool" where
  \<comment> \<open>the write of the command byte raises, or the read after it does\<close>
  "bus_fails io = (\<not> write_ok io \<or> read_reply io = None)"

definition gate_open :: "tick \<Rightarrow> 'a pg_state_scheme \<Rightarrow> bool" where
  \<comment> \<open>\<^verbatim>\<open>now - self.history_write >= self.FREC_HISTORY\<close>\<close>
  "gate_open t s = py_ge (Fin (clock t - history_write s)) (FREC_HISTORY (config s))"




subsection \<open>Handler invocations running concurrently\<close>

text \<open>
  \<^verbatim>\<open>isr\<close> statement by statement, for several invocations that share the object, the
  pin and the lock \<^verbatim>\<open>pulse_pin_mutex\<close>. A program counter names the statement an
  invocation executes next. \<^verbatim>\<open>with self.pulse_pin_mutex:\<close> acquires the lock on entry,
  which is possible only while the lock is free (the invocation waits otherwise), and
  releases it when the block is left.
\<close>

datatype pc =
    AtEntry        \<comment> \<open>\<^verbatim>\<open>if channel != self.CLOCK_PIN: return\<close>\<close>
  | AtAcquire      \<comment> \<open>\<^verbatim>\<open>with self.pulse_pin_mutex:\<close>\<close>
  | AtReadLevel    \<comment> \<open>\<^verbatim>\<open>self.sqwave = not GPIO.input(self.PULSE_PIN)\<close>\<close>
  | AtDriveLow     \<comment> \<open>\<^verbatim>\<open>GPIO.output(self.PULSE_PIN, False)\<close>\<close>
  | AtSetupIn      \<comment> \<open>\<^verbatim>\<open>GPIO.setup(self.PULSE_PIN, GPIO.IN, pull_up_down=GPIO.PUD_UP)\<close>\<close>
  | AtSample       \<comment> \<open>\<^verbatim>\<open>if not GPIO.input(self.PULSE_PIN):\<close>\<close>
  | AtWarn         \<comment> \<open>\<^verbatim>\<open>self.log.warning(...)\<close>\<close>
  | AtRecord       \<comment> \<open>the \<^verbatim>\<open>try\<close> block appending the shutdown record\<close>
  | AtGrace        \<comment> \<open>\<^verbatim>\<open>time.sleep(2)\<close>\<close>
  | AtShutdown     \<comment> \<open>\<^verbatim>\<open>subprocess.call(['/sbin/shutdown', '-h', 'now'])\<close>\<close>
  | AtSetupOut     \<comment> \<open>\<^verbatim>\<open>GPIO.setup(self.PULSE_PIN, GPIO.OUT, initial=self.sqwave)\<close>\<close>
  | AtRelease      \<comment> \<open>leaving the \<^verbatim>\<open>with\<close> block\<close>
  | AtReturn       \<comment> \<open>the invocation has returned\<close>

record shared = pg_state +
  mutex_locked :: bool

fun isr_step :: "int \<Rightarrow> isr_env \<Rightarrow> pc \<Rightarrow> shared \<Rightarrow> (pc \<times> shared) option" where
  "isr_step channel env AtEntry s =
     (if channel \<noteq> CLOCK_PIN then Some (AtReturn, s) else Some (AtAcquire, s))"
| "isr_step channel env AtAcquire s =
     (if mutex_locked s then None
      else Some (AtReadLevel, emit Acquire (s\<lparr>mutex_locked := True\<rparr>)))"
| "isr_step channel env AtReadLevel s =
     Some (AtDriveLow, s\<lparr>sqwave := \<not> gpio_input (line_low env) s\<rparr>)"
| "isr_step channel env AtDriveLow s = Some (AtSetupIn, gpio_output False s)"
| "isr_step channel env AtSetupIn s = Some (AtSample, gpio_setup_in s)"
| "isr_step channel env AtSample s =
     (if \<not> gpio_input (line_low env) s then Some (AtWarn, s) else Some (AtSetupOut, s))"
| "isr_step channel env AtWarn s = Some (AtRecord, emit LogWarning s)"
| "isr_step channel env AtRecord s = Some (AtGrace, record_shutdown (shutdown_log_io env) s)"
| "isr_step channel env AtGrace s = Some (AtShutdown, emit (Sleep 2) s)"
| "isr_step channel env AtShutdown s = Some (AtSetupOut, emit Shutdown s)"
| "isr_step channel env AtSetupOut s = Some (AtRelease, gpio_setup_out (sqwave s) s)"
| "isr_step channel env AtRelease s =
     Some (AtReturn, emit Release (s\<lparr>mutex_locked := False\<rparr>))"
| "isr_step channel env AtReturn s = None"

text \<open>One invocation stepped on its own, at most \<open>n\<close> times.\<close>

fun isr_steps :: "nat \<Rightarrow> int \<Rightarrow> isr_env \<Rightarrow> pc \<times> shared \<Rightarrow> pc \<times> shared" where
  "isr_steps 0 channel env x = x"
| "isr_steps (Suc n) channel env (loc, s) =
     (case isr_step channel env loc s of
        None \<Rightarrow> (loc, s)
      | Some x \<Rightarrow> isr_steps n channel env x)"

text \<open>
  A system is the list of invocations (each with the channel and the outside world it
  sees, and its program counter) and the shared state. A schedule is the order in which
  invocations take their steps: entry \<open>i\<close> lets invocation \<open>i\<close> execute one statement, and
  changes nothing if that invocation waits for the lock or has returned. An invocation
  that has not started yet is one still at \<open>AtEntry\<close>.
\<close>

type_synonym invocation = "int \<times> isr_env \<times> pc"
type_synonym system = "invocation list \<times> shared"

definition pc_of :: "invocation \<Rightarrow> pc" where
  "pc_of t = snd (snd t)"

fun sys_step :: "nat \<Rightarrow> system \<Rightarrow> system" where
  "sys_step i (ths, s) =
     (if i < length ths then
        (case ths ! i of (channel, env, loc) \<Rightarrow>
           (case isr_step channel env loc s of
              None \<Rightarrow> (ths, s)
            | Some (loc', s') \<Rightarrow> (ths[i := (channel, env, loc')], s')))
      else (ths, s))"

fun run_schedule :: "nat list \<Rightarrow> system \<Rightarrow> system" where
  "run_schedule [] x = x"
| "run_schedule (i # sched) x = run_schedule sched (sys_step i x)"

fun in_transition :: "pc \<Rightarrow> bool" where
  \<comment> \<open>inside the \<^verbatim>\<open>with\<close> block: the lock has been acquired and not yet released\<close>
  "in_transition AtEntry = False"
| "in_transition AtAcquire = False"
| "in_transition AtReturn = False"
| "in_transition _ = True"

definition all_at_entry :: "invocation list \<Rightarrow> bool" where
  "all_at_entry ths = list_all (\<lambda>t. pc_of t = AtEntry) ths"

fun pin_expected_out :: "pc \<Rightarrow> bool" where
  \<comment> \<open>inside the block, before the pin is made an input or after it is an output again\<close>
  "pin_expected_out AtReadLevel = True"
| "pin_expected_out AtDriveLow = True"
| "pin_expected_out AtSetupIn = True"
| "pin_expected_out AtRelease = True"
| "pin_expected_out _ = False"

definition holders :: "invocation list \<Rightarrow> nat set" where
  \<comment> \<open>the invocations that are inside the \<^verbatim>\<open>with\<close> block\<close>
  "holders ths = {i. i < length ths \<and> in_transition (pc_of (ths ! i))}"

definition mutex_inv :: "system \<Rightarrow> bool" where
  \<comment> \<open>the lock is taken exactly when one invocation is inside the block, and never two
      are; the pin is an output unless the invocation inside the block has made it an input\<close>
  "mutex_inv x =
     (case x of (ths, s) \<Rightarrow>
        (if mutex_locked s
         then \<exists>i. holders ths = {i}
                \<and> (pin_expected_out (pc_of (ths ! i)) \<longrightarrow> pulse_dir s = DirOut)
         else holders ths = {} \<and> pulse_dir s = DirOut))"

subsection \<open>Concrete inputs\<close>

text \<open>The values of the configuration file that \<^verbatim>\<open>load_config\<close> creates when none exists.\<close>

definition default_parameters :: parameters where
  "default_parameters =
     \<lparr> SHUTDOWN_DELAY = 60, WATCHDOG_RPI = 5, LOOP_RUN_UPS = 5, POST_SHUTDOWN = 30,
       FREC_HISTORY = Fin 60, I2C_SEND_ENABLED = True \<rparr>"

definition low_edge :: "int \<times> isr_env" where
  \<comment> \<open>an edge on the clock pin while the UPS holds the pulse line low\<close>
  "low_edge = (CLOCK_PIN, \<lparr> line_low = True, shutdown_log_io = FileOk \<rparr>)"

definition high_edge :: "int \<times> isr_env" where
  "high_edge = (CLOCK_PIN, \<lparr> line_low = False, shutdown_log_io = FileOk \<rparr>)"

definition bus_ok :: "int \<Rightarrow> bus_io" where
  "bus_ok v = \<lparr> write_ok = True, read_reply = Some v \<rparr>"

definition good_tick :: "real \<Rightarrow> int \<Rightarrow> int \<Rightarrow> tick" where
  \<comment> \<open>an iteration at clock reading \<open>c\<close> in which every transfer and append succeeds\<close>
  "good_tick c v m =
     \<lparr> voltage_io = bus_ok v, mode_io = bus_ok m, clock = c,
       power_log_io = FileOk, sample_log_io = FileOk, interrupt = False \<rparr>"

definition dead_bus :: bus_io where
  \<comment> \<open>a bus on which the write of the command byte raises\<close>
  "dead_bus = \<lparr> write_ok = False, read_reply = None \<rparr>"

definition open_fails_tick :: tick where
  \<comment> \<open>the power-event log cannot be opened\<close>
  "open_fails_tick = (good_tick 0 200 1)\<lparr>power_log_io := OpenRaises\<rparr>"

definition close_fails_tick :: tick where
  \<comment> \<open>the power-event log is opened and written, and closing it raises\<close>
  "close_fails_tick = (good_tick 0 200 1)\<lparr>power_log_io := CloseRaises\<rparr>"

definition armed_shared :: shared where
  \<comment> \<open>the armed state with the lock free\<close>
  "armed_shared =
     \<lparr> sqwave = True, history_write = - 60, config = default_parameters,
       pulse_dir = DirOut, pulse_out = True, trace = [], mutex_locked = False \<rparr>"

definition two_low_invocations :: "invocation list" where
  \<comment> \<open>two invocations for edges on the clock pin, both of which would sample low\<close>
  "two_low_invocations =
     [(fst low_edge, snd low_edge, AtEntry), (fst low_edge, snd low_edge, AtEntry)]"

definition first_reaches_shutdown :: "nat list" where
  \<comment> \<open>the first invocation runs up to the shutdown command, its 2-second sleep done; then
      the second one starts and comes to the lock\<close>
  "first_reaches_shutdown = [0, 0, 0, 0, 0, 0, 0, 0, 0, 1, 1]"

section \<open>Properties\<close>

subsection \<open>Configuration\<close>

lemmas limits_defs =
  MAX_SHUTDOWN_DELAY_def MIN_SHUTDOWN_DELAY_def MAX_WATCHDOG_RPI_def MIN_WATCHDOG_RPI_def
  MAX_LOOP_RUN_UPS_def MIN_LOOP_RUN_UPS_def MAX_POST_SHUTDOWN_def MIN_POST_SHUTDOWN_def
  MAX_FREC_HISTORY_def MIN_FREC_HISTORY_def

lemma clamp_int_bounds: "lo \<le> hi \<Longrightarrow> lo \<le> clamp_int lo x hi \<and> clamp_int lo x hi \<le> hi"
  by (simp add: clamp_int_def py_max_int_def py_min_int_def)

lemma clamp_int_id: "lo \<le> x \<Longrightarrow> x \<le> hi \<Longrightarrow> clamp_int lo x hi = x"
  by (simp add: clamp_int_def py_max_int_def py_min_int_def)

lemma clamp_num_bounds: "lo \<le> hi \<Longrightarrow> num_within (of_int lo) (clamp_num lo x hi) (of_int hi)"
  by (cases x) (auto simp add: clamp_num_def py_max_def py_min_def py_gt_def num_within_def)

lemma clamp_num_id: "of_int lo \<le> r \<Longrightarrow> r \<le> of_int hi \<Longrightarrow> clamp_num lo (Fin r) hi = Fin r"
  by (auto simp add: clamp_num_def py_max_def py_min_def py_gt_def)

lemma load_config_numeric:
  "load_config (numeric_config sd wd lr ps fh en) =
     Inr \<lparr> SHUTDOWN_DELAY = clamp_int 1 sd 235, WATCHDOG_RPI = clamp_int 3 wd 10,
           LOOP_RUN_UPS = clamp_int 1 lr 20, POST_SHUTDOWN = clamp_int 10 ps 254,
           FREC_HISTORY = clamp_num 20 fh 3600, I2C_SEND_ENABLED = i2c_send_enabled en \<rparr>"
  by (simp add: load_config_def numeric_config_def limits_defs)

text \<open>
  Claim C6. Whatever numbers the configuration holds, \<^verbatim>\<open>load_config\<close> succeeds and the
  loaded shutdown delay, watchdog timeout, loop interval, post-shutdown grace and
  history frequency lie in [1,235], [3,10], [1,20], [10,254] and [20,3600]; a value
  already inside its range is loaded unchanged. The history frequency is a float: an
  infinity is clamped like any other value outside the range, and a NaN is loaded as 20.
\<close>

theorem load_config_clamps:
  "\<exists>p. load_config (numeric_config sd wd lr ps fh en) = Inr p
     \<and> 1 \<le> SHUTDOWN_DELAY p \<and> SHUTDOWN_DELAY p \<le> 235
     \<and> 3 \<le> WATCHDOG_RPI p \<and> WATCHDOG_RPI p \<le> 10
     \<and> 1 \<le> LOOP_RUN_UPS p \<and> LOOP_RUN_UPS p \<le> 20
     \<and> 10 \<le> POST_SHUTDOWN p \<and> POST_SHUTDOWN p \<le> 254
     \<and> num_within 20 (FREC_HISTORY p) 3600
     \<and> (1 \<le> sd \<and> sd \<le> 235 \<longrightarrow> SHUTDOWN_DELAY p = sd)
     \<and> (3 \<le> wd \<and> wd \<le> 10 \<longrightarrow> WATCHDOG_RPI p = wd)
     \<and> (1 \<le> lr \<and> lr \<le> 20 \<longrightarrow> LOOP_RUN_UPS p = lr)
     \<and> (10 \<le> ps \<and> ps \<le> 254 \<longrightarrow> POST_SHUTDOWN p = ps)
     \<and> (num_within 20 fh 3600 \<longrightarrow> FREC_HISTORY p = fh)"
proof -
  have fh_in: "num_within 20 (clamp_num 20 fh 3600) 3600"
    using clamp_num_bounds [of 20 3600 fh] by simp
  have fh_id: "num_within 20 fh 3600 \<longrightarrow> clamp_num 20 fh 3600 = fh"
    using clamp_num_id [of 20 _ 3600] by (cases fh) (simp_all add: num_within_def)
  show ?thesis
    unfolding load_config_numeric
    using fh_in fh_id clamp_int_bounds [of 1 235 sd] clamp_int_bounds [of 3 10 wd]
      clamp_int_bounds [of 1 20 lr] clamp_int_bounds [of 10 254 ps]
    by (simp add: clamp_int_id)
qed

theorem load_config_clamps_witness:
  "(1::int) \<le> 200 \<and> (200::int) \<le> 235 \<and> (3::int) \<le> 5 \<and> (5::int) \<le> 10
     \<and> (1::int) \<le> 5 \<and> (5::int) \<le> 20 \<and> (10::int) \<le> 30 \<and> (30::int) \<le> 254
     \<and> num_within 20 (Fin 60) 3600
     \<and> (\<exists>p. load_config (numeric_config 200 5 5 30 (Fin 60) None) = Inr p
          \<and> SHUTDOWN_DELAY p = 200 \<and> WATCHDOG_RPI p = 5 \<and> LOOP_RUN_UPS p = 5
          \<and> POST_SHUTDOWN p = 30 \<and> FREC_HISTORY p = Fin 60)"
  using load_config_clamps [of 200 5 5 30 "Fin 60" None]
  by (auto simp add: num_within_def)

lemma py_str_23: "py_str 23 = ''23''"
  by code_simp

text \<open>
  Claim C9. A shutdown-delay input of 500 is loaded as 235 and an input of 200 as 200.
  The start-up record renders a loaded shutdown delay of 181 or more as that value
  minus 177 with the unit \<^verbatim>\<open>[hrs]\<close>, so 200 appears as 23 hrs, and a value below 181
  as itself with the unit \<^verbatim>\<open>[min]\<close>.
\<close>

theorem shutdown_delay_display:
  "map_sum id SHUTDOWN_DELAY (load_config (numeric_config 500 wd lr ps fh en)) = Inr 235
   \<and> map_sum id SHUTDOWN_DELAY (load_config (numeric_config 200 wd lr ps fh en)) = Inr 200
   \<and> (181 \<le> SHUTDOWN_DELAY p \<longrightarrow>
        startup_record now p =
          now @ NL @ TAB @ ''Shutdown delay: '' @ TAB @ py_str (SHUTDOWN_DELAY p - 177) @ TAB @ ''[hrs]''
            @ NL @ TAB @ ''Watchdog Rpi: '' @ TAB @ TAB @ py_str (WATCHDOG_RPI p) @ TAB @ ''[min]''
            @ NL @ TAB @ ''Post Shutdown: '' @ TAB @ TAB @ py_str (POST_SHUTDOWN p) @ TAB @ ''[s]'' @ NL)
   \<and> (SHUTDOWN_DELAY p < 181 \<longrightarrow>
        startup_record now p =
          now @ NL @ TAB @ ''Shutdown delay: '' @ TAB @ py_str (SHUTDOWN_DELAY p) @ TAB @ ''[min]''
            @ NL @ TAB @ ''Watchdog Rpi: '' @ TAB @ TAB @ py_str (WATCHDOG_RPI p) @ TAB @ ''[min]''
            @ NL @ TAB @ ''Post Shutdown: '' @ TAB @ TAB @ py_str (POST_SHUTDOWN p) @ TAB @ ''[s]'' @ NL)
   \<and> py_str (200 - 177) = ''23''"
  by (simp add: load_config_numeric clamp_int_def py_max_int_def py_min_int_def
      startup_record_def py_str_23)

theorem shutdown_delay_display_witness:
  "(181::int) \<le> 200 \<and>
   startup_record ''T'' (default_parameters\<lparr>SHUTDOWN_DELAY := 200\<rparr>) =
     ''T'' @ NL @ TAB @ ''Shutdown delay: '' @ TAB @ ''23'' @ TAB @ ''[hrs]''
        @ NL @ TAB @ ''Watchdog Rpi: '' @ TAB @ TAB @ ''5'' @ TAB @ ''[min]''
        @ NL @ TAB @ ''Post Shutdown: '' @ TAB @ TAB @ ''30'' @ TAB @ ''[s]'' @ NL
   \<and> (60::int) < 181 \<and>
   startup_record ''T'' default_parameters =
     ''T'' @ NL @ TAB @ ''Shutdown delay: '' @ TAB @ ''60'' @ TAB @ ''[min]''
        @ NL @ TAB @ ''Watchdog Rpi: '' @ TAB @ TAB @ ''5'' @ TAB @ ''[min]''
        @ NL @ TAB @ ''Post Shutdown: '' @ TAB @ TAB @ ''30'' @ TAB @ ''[s]'' @ NL"
proof -
  have a: "py_str 23 = ''23''" "py_str 5 = ''5''" "py_str 30 = ''30''" "py_str 60 = ''60''"
    by code_simp+
  show ?thesis
    using shutdown_delay_display
        [where p = "default_parameters\<lparr>SHUTDOWN_DELAY := 200\<rparr>" and now = "''T''"]
      shutdown_delay_display [where p = "default_parameters" and now = "''T''"]
    by (simp add: default_parameters_def a)
qed

subsection \<open>The interrupt handler\<close>

lemmas isr_defs = isr_def Let_def shutdown_branch_def record_shutdown_def emit_def
  gpio_input_def gpio_output_def gpio_setup_in_def gpio_setup_out_def

lemma shutdown_count_isr:
  "shutdown_count (isr channel env s) =
     shutdown_count s + (if samples_low (channel, env) then 1 else 0)"
  by (simp add: isr_defs shutdown_count_def samples_low_def split: file_outcome.splits)

lemma isr_dir_out: "pulse_dir s = DirOut \<Longrightarrow> pulse_dir (isr channel env s) = DirOut"
  by (simp add: isr_defs split: file_outcome.splits)

lemma isr_run_dir_out: "pulse_dir s = DirOut \<Longrightarrow> pulse_dir (isr_run edges s) = DirOut"
proof (induction edges arbitrary: s)
  case Nil
  then show ?case by simp
next
  case (Cons edge edges)
  obtain channel env where edge: "edge = (channel, env)" by (cases edge)
  show ?case
    using Cons.IH [OF isr_dir_out [OF Cons.prems, of channel env]] by (simp add: edge)
qed

lemma shutdown_count_isr_run:
  "shutdown_count (isr_run edges s) = shutdown_count s + length (filter samples_low edges)"
proof (induction edges arbitrary: s)
  case Nil
  show ?case by simp
next
  case (Cons edge edges)
  obtain channel env where edge: "edge = (channel, env)" by (cases edge)
  show ?case
    by (simp add: edge Cons.IH shutdown_count_isr)
qed

text \<open>
  Claim C1, as the handler behaves. An edge on the clock pin at which the pulse pin is
  sampled low makes the handler issue the shutdown command exactly once in that
  invocation, and any other invocation issues none. The handler keeps no record of a
  shutdown already issued, so over a sequence of edges the command is issued once for
  each edge that samples low; after each of them the pin is an output again, ready
  for the next edge.
\<close>

theorem shutdown_once_per_low_edge:
  assumes "pulse_dir s = DirOut"
  shows "shutdown_count (isr channel env s) =
           shutdown_count s + (if samples_low (channel, env) then 1 else 0)
       \<and> shutdown_count (isr_run edges s) = shutdown_count s + length (filter samples_low edges)
       \<and> pulse_dir (isr_run edges s) = DirOut"
  using assms by (simp add: shutdown_count_isr shutdown_count_isr_run isr_run_dir_out)

theorem shutdown_once_per_low_edge_witness:
  "pulse_dir (armed 0 default_parameters) = DirOut
   \<and> samples_low low_edge \<and> \<not> samples_low high_edge
   \<and> shutdown_count (armed 0 default_parameters) = 0
   \<and> shutdown_count (isr (fst low_edge) (snd low_edge) (armed 0 default_parameters)) = 1
   \<and> shutdown_count (isr_run [high_edge, low_edge, high_edge] (armed 0 default_parameters)) = 1"
proof -
  have d: "pulse_dir (armed 0 default_parameters) = DirOut"
    by (simp add: armed_def)
  have z: "shutdown_count (armed 0 default_parameters) = 0"
    by (simp add: shutdown_count_def armed_def)
  show ?thesis
    using d z
      shutdown_once_per_low_edge
        [OF d, of "fst low_edge" "snd low_edge" "[high_edge, low_edge, high_edge]"]
    by (simp add: samples_low_def low_edge_def high_edge_def)
qed

text \<open>
  Claim C1, as stated, fails: two edges that both sample low, handled one after the
  other from the armed state, issue the shutdown command twice.
\<close>

theorem shutdown_twice_counterexample:
  "shutdown_count (isr_run [low_edge, low_edge] (armed 0 default_parameters)) = 2"
proof -
  have "shutdown_count (armed 0 default_parameters) = 0"
    by (simp add: shutdown_count_def armed_def)
  then show ?thesis
    by (simp add: low_edge_def shutdown_count_isr samples_low_def)
qed

lemma isr_driving: "driving s \<Longrightarrow> driving (isr channel env s)"
  by (simp add: isr_defs driving_def split: file_outcome.splits)

lemma isr_other_channel: "channel \<noteq> CLOCK_PIN \<Longrightarrow> isr channel env s = s"
  by (simp add: isr_def)

lemma isr_sqwave: "pulse_dir s = DirOut \<Longrightarrow> sqwave (isr CLOCK_PIN env s) = (\<not> pulse_out s)"
  by (simp add: isr_defs split: file_outcome.splits)

lemma isr_run_sqwave:
  "driving s \<Longrightarrow>
   sqwave (isr_run edges s) =
     (if even (length (filter (\<lambda>e. fst e = CLOCK_PIN) edges)) then sqwave s else \<not> sqwave s)"
proof (induction edges arbitrary: s)
  case Nil
  show ?case by simp
next
  case (Cons edge edges)
  obtain channel env where edge: "edge = (channel, env)" by (cases edge)
  show ?case
  proof (cases "channel = CLOCK_PIN")
    case True
    have "sqwave (isr CLOCK_PIN env s) = (\<not> sqwave s)"
      using Cons.prems by (simp add: isr_sqwave driving_def)
    then show ?thesis
      using Cons.IH [OF isr_driving [OF Cons.prems, of CLOCK_PIN env]] by (simp add: edge True)
  next
    case False
    then show ?thesis
      using Cons.IH [OF Cons.prems] by (simp add: edge isr_other_channel)
  qed
qed

text \<open>
  Claim C3. Started while the pin is an output at the level stored in \<^verbatim>\<open>sqwave\<close>, the
  handler of an edge on the clock pin sets \<^verbatim>\<open>sqwave\<close> to the negation of the level the
  pin was driving, which is the negation of the old \<^verbatim>\<open>sqwave\<close>; its last pin operation,
  just before the lock is released, configures the pin as an output at the new
  \<^verbatim>\<open>sqwave\<close>, and it leaves the pin in that state. Over a sequence of edges \<^verbatim>\<open>sqwave\<close>
  therefore changes once for each edge on the clock pin and for no other.
\<close>

theorem isr_toggles_pulse_level:
  assumes "driving s"
  shows "sqwave (isr CLOCK_PIN env s) = (\<not> pulse_out s)
       \<and> sqwave (isr CLOCK_PIN env s) = (\<not> sqwave s)
       \<and> pulse_dir (isr CLOCK_PIN env s) = DirOut
       \<and> pulse_out (isr CLOCK_PIN env s) = sqwave (isr CLOCK_PIN env s)
       \<and> last (butlast (trace (isr CLOCK_PIN env s))) = GpioSetupOut (sqwave (isr CLOCK_PIN env s))
       \<and> sqwave (isr_run edges s) =
           (if even (length (filter (\<lambda>e. fst e = CLOCK_PIN) edges)) then sqwave s else \<not> sqwave s)"
proof -
  have "last (butlast (trace (isr CLOCK_PIN env s))) = GpioSetupOut (sqwave (isr CLOCK_PIN env s))"
    by (simp add: isr_defs butlast_append split: file_outcome.splits)
  moreover have "driving (isr CLOCK_PIN env s)"
    using assms by (rule isr_driving)
  ultimately show ?thesis
    using assms isr_run_sqwave [OF assms, of edges] by (simp add: isr_sqwave driving_def)
qed

theorem isr_toggles_pulse_level_witness:
  "driving (armed 0 default_parameters)
   \<and> sqwave (armed 0 default_parameters)
   \<and> \<not> sqwave (isr CLOCK_PIN (snd high_edge) (armed 0 default_parameters))
   \<and> sqwave (isr_run [high_edge, high_edge] (armed 0 default_parameters))"
proof -
  have d: "driving (armed 0 default_parameters)"
    by (simp add: driving_def armed_def)
  show ?thesis
    using d isr_toggles_pulse_level [OF d, of "snd high_edge" "[high_edge, high_edge]"]
    by (simp add: armed_def high_edge_def)
qed

text \<open>
  Claim C7. When low is sampled and the append of the shutdown record raises, at
  whatever point, the handler logs the error and goes on: what it does in that
  invocation is, in order, acquire the lock, drive the pin low, make it an input, log
  the warning, log the error, sleep 2 seconds, issue the shutdown command, make the pin
  an output again and release the lock.
\<close>

theorem shutdown_survives_log_failure:
  assumes "pulse_dir s = DirOut" and "line_low env" and "shutdown_log_io env \<noteq> FileOk"
  shows "new_events s (isr CLOCK_PIN env s) =
           [Acquire, GpioOutput False, GpioSetupIn, LogWarning, LogError, Sleep 2, Shutdown,
            GpioSetupOut (sqwave (isr CLOCK_PIN env s)), Release]
       \<and> pulse_dir (isr CLOCK_PIN env s) = DirOut"
  using assms by (simp add: isr_defs new_events_def split: file_outcome.splits)

theorem shutdown_survives_log_failure_witness:
  "pulse_dir (armed 0 default_parameters) = DirOut
   \<and> line_low \<lparr> line_low = True, shutdown_log_io = OpenRaises \<rparr>
   \<and> shutdown_log_io \<lparr> line_low = True, shutdown_log_io = OpenRaises \<rparr> \<noteq> FileOk
   \<and> trace (isr CLOCK_PIN \<lparr> line_low = True, shutdown_log_io = OpenRaises \<rparr>
              (armed 0 default_parameters)) =
           [Acquire, GpioOutput False, GpioSetupIn, LogWarning, LogError, Sleep 2, Shutdown,
            GpioSetupOut False, Release]"
  using shutdown_survives_log_failure
    [where env = "\<lparr> line_low = True, shutdown_log_io = OpenRaises \<rparr>"
       and s = "armed 0 default_parameters"]
  by (simp add: new_events_def armed_def isr_defs)

subsection \<open>Concurrent invocations of the handler\<close>

lemma mutex_emit [simp]: "mutex_locked (emit e s) = mutex_locked s"
  by (simp add: emit_def)

lemma mutex_pin_ops [simp]:
  "mutex_locked (gpio_output v s) = mutex_locked s"
  "mutex_locked (gpio_setup_in s) = mutex_locked s"
  "mutex_locked (gpio_setup_out v s) = mutex_locked s"
  "mutex_locked (record_shutdown io s) = mutex_locked s"
  by (simp_all add: gpio_output_def gpio_setup_in_def gpio_setup_out_def record_shutdown_def
      split: file_outcome.splits)

text \<open>
  Stepped on its own from a state with the lock free, an invocation returns after at
  most 13 statements and has done what \<open>isr\<close> does.
\<close>

lemma isr_steps_isr:
  "\<not> mutex_locked s \<Longrightarrow> isr_steps 13 channel env (AtEntry, s) = (AtReturn, isr channel env s)"
  by (cases s) (simp add: eval_nat_numeral isr_def Let_def shutdown_branch_def emit_def
      gpio_output_def gpio_setup_in_def gpio_setup_out_def gpio_input_def record_shutdown_def
      split: file_outcome.splits pin_dir.splits)

text \<open>How one statement changes the program counter, the lock and the pin direction.\<close>

lemma isr_step_lock:
  assumes "isr_step channel env loc s = Some (loc', s')"
  shows "(loc = AtEntry \<longrightarrow> \<not> in_transition loc' \<and> s' = s)
       \<and> (loc = AtAcquire \<longrightarrow> \<not> mutex_locked s \<and> in_transition loc' \<and> mutex_locked s')
       \<and> (loc = AtRelease \<longrightarrow> \<not> in_transition loc' \<and> \<not> mutex_locked s')
       \<and> (in_transition loc \<and> loc \<noteq> AtRelease \<longrightarrow>
             in_transition loc' \<and> mutex_locked s' = mutex_locked s)
       \<and> loc \<noteq> AtReturn"
  using assms by (cases loc) (auto split: if_splits)

lemma isr_step_dir:
  assumes "isr_step channel env loc s = Some (loc', s')"
  shows "(pin_expected_out loc' \<longrightarrow>
            pulse_dir s' = DirOut
            \<or> (pin_expected_out loc \<or> loc = AtAcquire) \<and> pulse_dir s' = pulse_dir s)
       \<and> (loc = AtRelease \<longrightarrow> pulse_dir s' = pulse_dir s)"
  using assms
  by (cases loc)
    (auto simp add: emit_def gpio_output_def gpio_setup_in_def gpio_setup_out_def
      split: if_splits)

lemma holders_update:
  "i < length ths \<Longrightarrow>
   holders (ths[i := (channel, env, loc')]) =
     (if in_transition loc' then insert i (holders ths) else holders ths - {i})"
  by (auto simp add: holders_def nth_list_update pc_of_def)

lemma sys_step_inv:
  assumes inv: "mutex_inv (ths, s)"
  shows "mutex_inv (sys_step i (ths, s))"
proof (cases "i < length ths")
  case False
  then show ?thesis using inv by simp
next
  case True
  note i_len = this
  obtain channel env loc where thi: "ths ! i = (channel, env, loc)"
    by (cases "ths ! i")
  show ?thesis
  proof (cases "isr_step channel env loc s")
    case None
    then show ?thesis using inv True thi by simp
  next
    case (Some r)
    obtain loc' s' where r: "r = (loc', s')" by (cases r)
    have step: "sys_step i (ths, s) = (ths[i := (channel, env, loc')], s')"
      using True thi Some r by simp
    have i_holds: "i \<in> holders ths \<longleftrightarrow> in_transition loc"
      using True thi by (simp add: holders_def pc_of_def)
    note lock = isr_step_lock [OF Some [unfolded r]]
    note dir = isr_step_dir [OF Some [unfolded r]]
    have "mutex_inv (ths[i := (channel, env, loc')], s')"
    proof (cases "in_transition loc")
      case True
      note in_tr = this
      then have locked: "mutex_locked s" and only: "holders ths = {i}"
        and out: "pin_expected_out loc \<longrightarrow> pulse_dir s = DirOut"
        using inv i_holds thi by (auto simp add: mutex_inv_def pc_of_def split: if_splits)
      show ?thesis
      proof (cases "loc = AtRelease")
        case True
        then have "pulse_dir s' = DirOut"
          using dir out by simp
        then show ?thesis
          using True lock only i_len by (simp add: mutex_inv_def holders_update)
      next
        case False
        then have "in_transition loc'" "mutex_locked s'"
          using lock in_tr locked by simp_all
        moreover have "pin_expected_out loc' \<longrightarrow> pulse_dir s' = DirOut"
          using dir out in_tr by auto
        ultimately show ?thesis
          using only i_len by (simp add: mutex_inv_def holders_update pc_of_def)
      qed
    next
      case False
      then consider "loc = AtEntry" | "loc = AtAcquire" | "loc = AtReturn"
        by (cases loc) simp_all
      then show ?thesis
      proof cases
        case 1
        then have same: "\<not> in_transition loc'" "s' = s" using lock by simp_all
        have keep: "holders (ths[i := (channel, env, loc')]) = holders ths"
          using i_holds False same i_len by (simp add: holders_update)
        show ?thesis
        proof (cases "mutex_locked s")
          case True
          then obtain k where k: "holders ths = {k}"
            "pin_expected_out (pc_of (ths ! k)) \<longrightarrow> pulse_dir s = DirOut"
            using inv by (auto simp add: mutex_inv_def)
          then have "k \<noteq> i"
            using i_holds False by auto
          then have "ths[i := (channel, env, loc')] ! k = ths ! k"
            by simp
          then show ?thesis
            using True k same keep by (simp add: mutex_inv_def)
        next
          case False
          then show ?thesis
            using inv same keep by (simp add: mutex_inv_def)
        qed
      next
        case 2
        then have a: "\<not> mutex_locked s" "in_transition loc'" "mutex_locked s'"
          using lock by simp_all
        then have b: "holders ths = {}" "pulse_dir s = DirOut"
          using inv by (simp_all add: mutex_inv_def)
        have "pin_expected_out loc' \<longrightarrow> pulse_dir s' = DirOut"
          using dir b(2) by auto
        then show ?thesis
          using a b i_len by (simp add: mutex_inv_def holders_update pc_of_def)
      next
        case 3
        then show ?thesis using lock by simp
      qed
    qed
    then show ?thesis by (simp only: step)
  qed
qed

lemma run_schedule_inv: "mutex_inv x \<Longrightarrow> mutex_inv (run_schedule sched x)"
proof (induction sched arbitrary: x)
  case Nil
  then show ?case by simp
next
  case (Cons i sched)
  obtain ths s where x: "x = (ths, s)" by (cases x)
  have "mutex_inv (sys_step i x)"
    using Cons.prems unfolding x by (rule sys_step_inv)
  then show ?case
    by (simp add: Cons.IH)
qed

lemma initial_inv:
  "all_at_entry ths \<Longrightarrow> \<not> mutex_locked s \<Longrightarrow> pulse_dir s = DirOut \<Longrightarrow> mutex_inv (ths, s)"
  by (auto simp add: mutex_inv_def holders_def all_at_entry_def list_all_length)

text \<open>
  Claim C8. Let any number of handler invocations run interleaved in any order, starting
  with the lock free and the pin an output. Whenever one of them is anywhere inside its
  transition (between acquiring and releasing the lock, which includes the 2-second
  sleep and the shutdown command of the shutdown branch), the lock is taken, no other
  invocation is inside its transition, and a step of any other invocation leaves the
  shared state (pin, \<^verbatim>\<open>sqwave\<close> and trace) as it is: it either has not reached the lock,
  waits for it, or has returned. The invocation inside finds the pin an output
  wherever it reads the driven level or writes to the pin.
\<close>

theorem mutex_held_for_whole_transition:
  assumes "all_at_entry ths0" and "\<not> mutex_locked s0" and "pulse_dir s0 = DirOut"
    and "run_schedule sched (ths0, s0) = (ths, s)"
    and "i < length ths" and "in_transition (pc_of (ths ! i))"
  shows "mutex_locked s
       \<and> (\<forall>j. j \<noteq> i \<longrightarrow> snd (sys_step j (ths, s)) = s)
       \<and> (\<forall>j < length ths. j \<noteq> i \<longrightarrow> \<not> in_transition (pc_of (ths ! j)))
       \<and> (pin_expected_out (pc_of (ths ! i)) \<longrightarrow> pulse_dir s = DirOut)
       \<and> in_transition AtGrace \<and> in_transition AtShutdown \<and> in_transition AtSetupOut"
proof -
  have inv: "mutex_inv (ths, s)"
    using run_schedule_inv [OF initial_inv [OF assms(1,2,3)], of sched] by (simp add: assms(4))
  have i: "i \<in> holders ths"
    using assms(5,6) by (simp add: holders_def)
  then have locked: "mutex_locked s" and only: "holders ths = {i}"
    and out: "pin_expected_out (pc_of (ths ! i)) \<longrightarrow> pulse_dir s = DirOut"
    using inv by (auto simp add: mutex_inv_def split: if_splits)
  have others: "\<not> in_transition (pc_of (ths ! j))" if "j < length ths" "j \<noteq> i" for j
    using only that by (auto simp add: holders_def)
  have "snd (sys_step j (ths, s)) = s" if "j \<noteq> i" for j
  proof (cases "j < length ths")
    case False
    then show ?thesis by simp
  next
    case True
    obtain channel env loc where thj: "ths ! j = (channel, env, loc)"
      by (cases "ths ! j")
    have "\<not> in_transition loc"
      using others [OF True that] by (simp add: thj pc_of_def)
    then consider "loc = AtEntry" | "loc = AtAcquire" | "loc = AtReturn"
      by (cases loc) simp_all
    then show ?thesis
      using True thj locked by cases simp_all
  qed
  with locked others out show ?thesis
    by simp
qed

theorem mutex_held_for_whole_transition_witness:
  "all_at_entry two_low_invocations
   \<and> \<not> mutex_locked armed_shared \<and> pulse_dir armed_shared = DirOut
   \<and> map pc_of (fst (run_schedule first_reaches_shutdown (two_low_invocations, armed_shared)))
       = [AtShutdown, AtAcquire]
   \<and> in_transition AtShutdown
   \<and> mutex_locked (snd (run_schedule first_reaches_shutdown (two_low_invocations, armed_shared)))
   \<and> sys_step 1 (run_schedule first_reaches_shutdown (two_low_invocations, armed_shared))
       = run_schedule first_reaches_shutdown (two_low_invocations, armed_shared)"
proof -
  obtain ths s where run:
    "run_schedule first_reaches_shutdown (two_low_invocations, armed_shared) = (ths, s)"
    by (cases "run_schedule first_reaches_shutdown (two_low_invocations, armed_shared)")
  have pcs: "map pc_of ths = [AtShutdown, AtAcquire]"
    using run
    by (auto simp add: first_reaches_shutdown_def two_low_invocations_def pc_of_def low_edge_def
        armed_shared_def CLOCK_PIN_def emit_def gpio_input_def gpio_output_def gpio_setup_in_def
        gpio_setup_out_def record_shutdown_def)
  then have len: "0 < length ths" and at: "in_transition (pc_of (ths ! 0))"
    and second: "pc_of (ths ! 1) = AtAcquire" "1 < length ths"
    by (auto simp add: map_eq_Cons_conv)
  have start: "all_at_entry two_low_invocations" "\<not> mutex_locked armed_shared"
    "pulse_dir armed_shared = DirOut"
    by (simp_all add: all_at_entry_def two_low_invocations_def pc_of_def armed_shared_def)
  have held: "mutex_locked s"
    using mutex_held_for_whole_transition [OF start run len at] by simp
  have "sys_step 1 (ths, s) = (ths, s)"
    using held second by (cases "ths ! 1") (auto simp add: pc_of_def)
  then show ?thesis
    using start pcs held by (simp add: run)
qed

subsection \<open>The bus reads and the polling loop\<close>

lemma read_voltage_result:
  "fst (read_voltage io s) = (if bus_fails io then None else read_reply io)"
  by (auto simp add: read_voltage_def bus_fails_def Let_def split: option.splits)

lemma read_ups_mode_result:
  "fst (read_ups_mode io s) = (if bus_fails io then None else read_reply io)"
  by (auto simp add: read_ups_mode_def bus_fails_def Let_def split: option.splits)

lemma read_voltage_failure_logged:
  "bus_fails io \<Longrightarrow> last (trace (snd (read_voltage io s))) = LogError"
  by (auto simp add: read_voltage_def bus_fails_def Let_def emit_def split: option.splits)

lemma read_ups_mode_failure_logged:
  "bus_fails io \<Longrightarrow> last (trace (snd (read_ups_mode io s))) = LogError"
  by (auto simp add: read_ups_mode_def bus_fails_def Let_def emit_def split: option.splits)

lemma read_voltage_state:
  "read_voltage io s = (r, s') \<Longrightarrow>
     history_write s' = history_write s \<and> config s' = config s
     \<and> (\<exists>es. trace s' = trace s @ es \<and> quiet es)"
  by (auto simp add: read_voltage_def Let_def emit_def quiet_def split: option.splits if_splits)

lemma read_ups_mode_state:
  "read_ups_mode io s = (r, s') \<Longrightarrow>
     history_write s' = history_write s \<and> config s' = config s
     \<and> (\<exists>es. trace s' = trace s @ es \<and> quiet es)"
  by (auto simp add: read_ups_mode_def Let_def emit_def quiet_def split: option.splits if_splits)

lemma quiet_append: "quiet (xs @ ys) = (quiet xs \<and> quiet ys)"
  by (auto simp add: quiet_def)

lemma both_reads:
  obtains v s1 m s2 es where
    "read_voltage (voltage_io t) s = (v, s1)" "read_ups_mode (mode_io t) s1 = (m, s2)"
    "v = (if bus_fails (voltage_io t) then None else read_reply (voltage_io t))"
    "m = (if bus_fails (mode_io t) then None else read_reply (mode_io t))"
    "history_write s2 = history_write s" "config s2 = config s"
    "trace s2 = trace s @ es" "quiet es"
proof -
  obtain v s1 where rv: "read_voltage (voltage_io t) s = (v, s1)"
    by (cases "read_voltage (voltage_io t) s")
  obtain m s2 where rm: "read_ups_mode (mode_io t) s1 = (m, s2)"
    by (cases "read_ups_mode (mode_io t) s1")
  from read_voltage_state [OF rv] obtain es1 where
    s1: "history_write s1 = history_write s" "config s1 = config s" "trace s1 = trace s @ es1"
      "quiet es1"
    by blast
  from read_ups_mode_state [OF rm] obtain es2 where
    s2: "history_write s2 = history_write s1" "config s2 = config s1" "trace s2 = trace s1 @ es2"
      "quiet es2"
    by blast
  have v: "v = (if bus_fails (voltage_io t) then None else read_reply (voltage_io t))"
    using read_voltage_result [of "voltage_io t" s] by (simp add: rv)
  have m: "m = (if bus_fails (mode_io t) then None else read_reply (mode_io t))"
    using read_ups_mode_result [of "mode_io t" s1] by (simp add: rm)
  show thesis
    by (rule that [of v s1 m s2 "es1 @ es2"]) (simp_all add: rv rm v m s1 s2 quiet_append)
qed

text \<open>An iteration in which nothing is recorded: it only sleeps.\<close>

lemma loop_body_skips:
  assumes skip: "\<not> I2C_SEND_ENABLED (config s) \<or> bus_fails (voltage_io t) \<or> bus_fails (mode_io t)
                 \<or> \<not> gate_open t s"
  obtains s2 es where
    "loop_body t (s, lm) = loop_sleep t (s2, lm)"
    "history_write s2 = history_write s" "config s2 = config s"
    "trace s2 = trace s @ es" "quiet es"
proof (cases "I2C_SEND_ENABLED (config s)")
  case False
  show thesis
    by (rule that [of s "[]"]) (simp_all add: loop_body_def False quiet_def)
next
  case True
  obtain v s1 m s2 es where r:
    "read_voltage (voltage_io t) s = (v, s1)" "read_ups_mode (mode_io t) s1 = (m, s2)"
    "v = (if bus_fails (voltage_io t) then None else read_reply (voltage_io t))"
    "m = (if bus_fails (mode_io t) then None else read_reply (mode_io t))"
    "history_write s2 = history_write s" "config s2 = config s"
    "trace s2 = trace s @ es" "quiet es"
    by (rule both_reads)
  have "loop_body t (s, lm) = loop_sleep t (s2, lm)"
    using skip True r(3-6)
    by (auto simp add: loop_body_def r(1,2) gate_open_def Let_def split: option.splits)
  then show thesis
    using r(5-8) by (rule that)
qed

text \<open>An iteration that records: both reads succeed and the period has elapsed.\<close>

lemma loop_body_records:
  assumes "I2C_SEND_ENABLED (config s)" "\<not> bus_fails (voltage_io t)" "\<not> bus_fails (mode_io t)"
    "gate_open t s"
  obtains v m s2 es where
    "read_reply (voltage_io t) = Some v" "read_reply (mode_io t) = Some m"
    "loop_body t (s, lm) =
       (case record_sample (sample_log_io t) (clock t) v m
               (if lm \<noteq> Some m
                then record_mode_change (power_log_io t) (clock t) v m
                       (s2\<lparr>history_write := clock t\<rparr>, lm)
                else (s2\<lparr>history_write := clock t\<rparr>, lm)) of
          Inl x \<Rightarrow> Inl x
        | Inr st5 \<Rightarrow> loop_sleep t st5)"
    "config s2 = config s" "trace s2 = trace s @ es" "quiet es"
proof -
  obtain v s1 m s2 es where r:
    "read_voltage (voltage_io t) s = (v, s1)" "read_ups_mode (mode_io t) s1 = (m, s2)"
    "v = (if bus_fails (voltage_io t) then None else read_reply (voltage_io t))"
    "m = (if bus_fails (mode_io t) then None else read_reply (mode_io t))"
    "history_write s2 = history_write s" "config s2 = config s"
    "trace s2 = trace s @ es" "quiet es"
    by (rule both_reads)
  from assms(2,3) obtain a b where ab: "read_reply (voltage_io t) = Some a" "read_reply (mode_io t) = Some b"
    by (auto simp add: bus_fails_def)
  have "loop_body t (s, lm) =
       (case record_sample (sample_log_io t) (clock t) a b
               (if lm \<noteq> Some b
                then record_mode_change (power_log_io t) (clock t) a b
                       (s2\<lparr>history_write := clock t\<rparr>, lm)
                else (s2\<lparr>history_write := clock t\<rparr>, lm)) of
          Inl x \<Rightarrow> Inl x
        | Inr st5 \<Rightarrow> loop_sleep t st5)"
    using assms r(3-6) ab
    by (auto simp add: loop_body_def r(1,2) gate_open_def Let_def)
  with ab show thesis
    using r(6-8) by (rule that)
qed

lemma new_events_append: "trace s' = trace s @ es \<Longrightarrow> new_events s s' = es"
  by (simp add: new_events_def)

lemma loop_sleep_result:
  "\<not> interrupt t \<Longrightarrow>
   loop_sleep t (s, lm) = Inr (emit (Sleep (of_int (LOOP_RUN_UPS (config s)))) s, lm)"
  by (simp add: loop_sleep_def)

text \<open>
  Claim C5. A bus transfer that raises inside \<^verbatim>\<open>read_voltage\<close> or \<^verbatim>\<open>read_ups_mode\<close> makes
  the method log the error and return \<^verbatim>\<open>None\<close>. An iteration of the loop in which
  either read fails appends nothing to either log, leaves the cursor timestamp and
  \<^verbatim>\<open>last_mode\<close> as they are, and ends normally, so the loop goes on with its next
  iteration (unless the process is interrupted during the sleep).
\<close>

theorem bus_failure_yields_unavailable:
  assumes "bus_fails (voltage_io t) \<or> bus_fails (mode_io t)" and "\<not> interrupt t"
  shows "(bus_fails (voltage_io t) \<longrightarrow>
            fst (read_voltage (voltage_io t) s) = None
            \<and> last (trace (snd (read_voltage (voltage_io t) s))) = LogError)
       \<and> (bus_fails (mode_io t) \<longrightarrow>
            fst (read_ups_mode (mode_io t) s) = None
            \<and> last (trace (snd (read_ups_mode (mode_io t) s))) = LogError)
       \<and> (\<exists>s'. loop_body t (s, lm) = Inr (s', lm)
              \<and> history_write s' = history_write s
              \<and> quiet (new_events s s'))"
proof -
  have skip: "\<not> I2C_SEND_ENABLED (config s) \<or> bus_fails (voltage_io t) \<or> bus_fails (mode_io t)
                 \<or> \<not> gate_open t s"
    using assms(1) by blast
  obtain s2 es where b:
    "loop_body t (s, lm) = loop_sleep t (s2, lm)"
    "history_write s2 = history_write s" "config s2 = config s"
    "trace s2 = trace s @ es" "quiet es"
    by (rule loop_body_skips [OF skip])
  let ?s' = "emit (Sleep (of_int (LOOP_RUN_UPS (config s2)))) s2"
  have "loop_body t (s, lm) = Inr (?s', lm)"
    using b(1) assms(2) by (simp add: loop_sleep_result)
  moreover have "history_write ?s' = history_write s"
    using b(2) by (simp add: emit_def)
  moreover have "quiet (new_events s ?s')"
    using b(4,5) by (simp add: new_events_def emit_def quiet_def)
  ultimately show ?thesis
    by (simp add: read_voltage_result read_ups_mode_result read_voltage_failure_logged
        read_ups_mode_failure_logged)
qed

theorem bus_failure_yields_unavailable_witness:
  "bus_fails (voltage_io ((good_tick 0 200 1)\<lparr>voltage_io := dead_bus\<rparr>))
   \<and> \<not> interrupt ((good_tick 0 200 1)\<lparr>voltage_io := dead_bus\<rparr>)
   \<and> fst (read_voltage dead_bus (armed 0 default_parameters)) = None
   \<and> trace (snd (read_voltage dead_bus (armed 0 default_parameters))) = [LogError]
   \<and> (\<exists>s'. loop_body ((good_tick 0 200 1)\<lparr>voltage_io := dead_bus\<rparr>)
              (armed 0 default_parameters, None) = Inr (s', None)
           \<and> history_write s' = - 60
           \<and> trace s' = [LogError, BusWrite 2, Sleep 0.2, BusRead 1, Sleep 5])"
  using bus_failure_yields_unavailable
    [of "(good_tick 0 200 1)\<lparr>voltage_io := dead_bus\<rparr>" "armed 0 default_parameters" None]
  by (simp add: good_tick_def dead_bus_def bus_ok_def bus_fails_def armed_def default_parameters_def
      loop_body_def read_voltage_def read_ups_mode_def loop_sleep_def emit_def Let_def
      READ_MODE_CMD_def)

lemma sample_log_failure_raises:
  assumes "I2C_SEND_ENABLED (config s)" "\<not> bus_fails (voltage_io t)" "\<not> bus_fails (mode_io t)"
    "gate_open t s" "sample_log_io t \<noteq> FileOk"
  shows "\<exists>st. loop_body t (s, lm) = Inl (OSError, st) \<and> main_loop (t # ts) (s, lm) = Inl (OSError, st)"
proof -
  obtain v m s2 es where r:
    "loop_body t (s, lm) =
       (case record_sample (sample_log_io t) (clock t) v m
               (if lm \<noteq> Some m
                then record_mode_change (power_log_io t) (clock t) v m
                       (s2\<lparr>history_write := clock t\<rparr>, lm)
                else (s2\<lparr>history_write := clock t\<rparr>, lm)) of
          Inl x \<Rightarrow> Inl x
        | Inr st5 \<Rightarrow> loop_sleep t st5)"
    using assms(1-4) by (rule loop_body_records [of s t lm]) 
  show ?thesis
    using assms(5) by (simp add: r record_sample_def split: file_outcome.splits prod.splits)
qed

text \<open>
  Claim C2 does not hold of the code. With both reads successful and the period
  elapsed, an append to the periodic-sample log that raises is not caught in the loop:
  the exception leaves the \<^verbatim>\<open>while\<close>, the \<^verbatim>\<open>finally\<close> clause cleans the pins up, and
  \<^verbatim>\<open>main\<close> ends with the exception. Here the first iteration cannot open the sample
  log; the second iteration never runs.
\<close>

theorem sample_log_failure_ends_loop:
  "run_main_loop [(good_tick 0 200 1)\<lparr>sample_log_io := OpenRaises\<rparr>, good_tick 60 200 1]
     (armed 0 default_parameters) =
   Crashed OSError
     \<lparr> sqwave = True, history_write = 0, config = default_parameters,
       pulse_dir = DirOut, pulse_out = True,
       trace = [BusWrite 1, Sleep 0.2, BusRead 200, BusWrite 2, Sleep 0.2, BusRead 1,
                Append PowerLog (Reading 0 200 1), LogInfo, GpioCleanup] \<rparr>"
  by (simp add: run_main_loop_def good_tick_def bus_ok_def armed_def default_parameters_def
      loop_body_def read_voltage_def read_ups_mode_def loop_sleep_def emit_def Let_def
      READ_MODE_CMD_def READ_VOLTAGE_CMD_def py_ge_def record_sample_def record_mode_change_def)












lemmas run_defs = good_tick_def bus_ok_def armed_def default_parameters_def
  loop_body_def read_voltage_def read_ups_mode_def loop_sleep_def emit_def Let_def
  READ_MODE_CMD_def READ_VOLTAGE_CMD_def py_ge_def record_sample_def record_mode_change_def
  state_of_def new_events_def gate_open_def



lemma loop_body_mode_change:
  fixes s :: pg_state
  assumes "I2C_SEND_ENABLED (config s)" "voltage_io t = bus_ok v" "mode_io t = bus_ok m"
    "gate_open t s" "lm \<noteq> Some m"
  shows "loop_body t (s, lm) =
     (case record_sample (sample_log_io t) (clock t) v m
             (record_mode_change (power_log_io t) (clock t) v m
                (s\<lparr>trace := trace s @ [BusWrite 1, Sleep 0.2, BusRead v, BusWrite 2, Sleep 0.2, BusRead m],
                    history_write := clock t\<rparr>,
                 lm)) of
        Inl x \<Rightarrow> Inl x
      | Inr st5 \<Rightarrow> loop_sleep t st5)"
  using assms
  by (simp add: loop_body_def read_voltage_def read_ups_mode_def bus_ok_def emit_def Let_def
      READ_MODE_CMD_def READ_VOLTAGE_CMD_def gate_open_def)

lemma main_loop_idle:
  fixes s :: pg_state
  assumes "\<forall>u \<in> set mid. \<not> interrupt u \<and> \<not> py_ge (Fin (clock u - history_write s)) (FREC_HISTORY (config s))"
  shows "\<exists>s'. main_loop mid (s, lm) = Inr (s', lm)
            \<and> history_write s' = history_write s \<and> config s' = config s"
  using assms
proof (induction mid arbitrary: s)
  case Nil
  show ?case by simp
next
  case (Cons u mid)
  have skip: "\<not> I2C_SEND_ENABLED (config s) \<or> bus_fails (voltage_io u) \<or> bus_fails (mode_io u)
      \<or> \<not> gate_open u s"
    using Cons.prems by (simp add: gate_open_def)
  obtain s2 es where b:
    "loop_body u (s, lm) = loop_sleep u (s2, lm)"
    "history_write s2 = history_write s" "config s2 = config s"
    by (rule loop_body_skips [OF skip])
  let ?s3 = "emit (Sleep (of_int (LOOP_RUN_UPS (config s2)))) s2"
  have lb: "loop_body u (s, lm) = Inr (?s3, lm)"
    using Cons.prems by (simp add: b(1) loop_sleep_result)
  have s3: "history_write ?s3 = history_write s" "config ?s3 = config s"
    using b(2,3) by (simp_all add: emit_def)
  have "\<forall>u \<in> set mid. \<not> interrupt u
           \<and> \<not> py_ge (Fin (clock u - history_write ?s3)) (FREC_HISTORY (config ?s3))"
    using Cons.prems by (simp add: s3)
  from Cons.IH [OF this] show ?case
    by (simp add: lb s3)
qed

text \<open>
  Claim C10, as the loop behaves. Take an iteration that reads a mode different from
  \<^verbatim>\<open>last_mode\<close> with the period elapsed, in which the power-event log cannot be opened
  or its \<^verbatim>\<open>write\<close> call raises. The error is logged, \<^verbatim>\<open>last_mode\<close> is unchanged and the
  loop goes on. After any number of iterations that come before the period has elapsed
  again, the first iteration past it that reads the same mode attempts the append
  again: it appends the line, or logs the error if the append raises once more.
\<close>

theorem failed_event_append_is_retried:
  fixes s :: pg_state
  assumes enabled: "I2C_SEND_ENABLED (config s)"
    and reads: "voltage_io t = bus_ok v" "mode_io t = bus_ok m"
    and gate: "gate_open t s"
    and change: "lm \<noteq> Some m"
    and fails: "power_log_io t = OpenRaises \<or> power_log_io t = WriteRaises"
    and rest: "sample_log_io t = FileOk" "\<not> interrupt t"
    and mid: "\<forall>u \<in> set mid. \<not> interrupt u
                \<and> \<not> py_ge (Fin (clock u - clock t)) (FREC_HISTORY (config s))"
    and reads': "voltage_io t' = bus_ok v'" "mode_io t' = bus_ok m"
    and gate': "py_ge (Fin (clock t' - clock t)) (FREC_HISTORY (config s))"
  shows "\<exists>s1 s2 es.
           loop_body t (s, lm) = Inr (s1, lm)
         \<and> new_events s s1 =
             [BusWrite 1, Sleep 0.2, BusRead v, BusWrite 2, Sleep 0.2, BusRead m,
              LogError, Append SampleLog (Reading (clock t) v m),
              Sleep (of_int (LOOP_RUN_UPS (config s)))]
         \<and> main_loop (t # mid) (s, lm) = Inr (s2, lm)
         \<and> new_events s2 (fst (state_of (loop_body t' (s2, lm)))) =
             [BusWrite 1, Sleep 0.2, BusRead v', BusWrite 2, Sleep 0.2, BusRead m,
              (if power_log_io t' = FileOk then Append PowerLog (Reading (clock t') v' m)
               else LogError)] @ es"
proof -
  let ?s1 = "s\<lparr>trace := trace s @ [BusWrite 1, Sleep 0.2, BusRead v, BusWrite 2, Sleep 0.2, BusRead m,
                 LogError, Append SampleLog (Reading (clock t) v m),
                 Sleep (of_int (LOOP_RUN_UPS (config s)))],
               history_write := clock t\<rparr>"
  have lb: "loop_body t (s, lm) = Inr (?s1, lm)"
    using fails rest
    by (auto simp add: loop_body_mode_change [OF enabled reads gate change]
        record_mode_change_def record_sample_def loop_sleep_def emit_def)
  have "\<forall>u \<in> set mid. \<not> interrupt u
           \<and> \<not> py_ge (Fin (clock u - history_write ?s1)) (FREC_HISTORY (config ?s1))"
    using mid by simp
  from main_loop_idle [OF this, of lm] obtain s2 where s2:
    "main_loop mid (?s1, lm) = Inr (s2, lm)" "history_write s2 = clock t" "config s2 = config s"
    by auto
  have gate2: "gate_open t' s2"
    using gate' by (simp add: gate_open_def s2)
  have en2: "I2C_SEND_ENABLED (config s2)"
    using enabled by (simp add: s2)
  have "\<exists>es. new_events s2 (fst (state_of (loop_body t' (s2, lm)))) =
             [BusWrite 1, Sleep 0.2, BusRead v', BusWrite 2, Sleep 0.2, BusRead m,
              (if power_log_io t' = FileOk then Append PowerLog (Reading (clock t') v' m)
               else LogError)] @ es"
    by (simp add: loop_body_mode_change [OF en2 reads' gate2 change]
        record_mode_change_def record_sample_def loop_sleep_def emit_def state_of_def new_events_def
        split: file_outcome.splits)
  then show ?thesis
    using s2(1) by (simp add: lb new_events_def)
qed

theorem failed_event_append_is_retried_witness:
  "I2C_SEND_ENABLED (config (armed 0 default_parameters))
   \<and> voltage_io open_fails_tick = bus_ok 200 \<and> mode_io open_fails_tick = bus_ok 1
   \<and> gate_open open_fails_tick (armed 0 default_parameters)
   \<and> None \<noteq> Some (1::int)
   \<and> power_log_io open_fails_tick = OpenRaises
   \<and> sample_log_io open_fails_tick = FileOk \<and> \<not> interrupt open_fails_tick
   \<and> list_all (\<lambda>u. \<not> interrupt u \<and> \<not> py_ge (Fin (clock u - clock open_fails_tick))
                      (FREC_HISTORY (config (armed 0 default_parameters)))) [good_tick 30 200 1]
   \<and> py_ge (Fin (clock (good_tick 60 200 1) - clock open_fails_tick))
        (FREC_HISTORY (config (armed 0 default_parameters)))
   \<and> snd (state_of (loop_body open_fails_tick (armed 0 default_parameters, None))) = None
   \<and> (\<exists>s2. main_loop [open_fails_tick, good_tick 30 200 1] (armed 0 default_parameters, None)
               = Inr (s2, None)
           \<and> new_events s2 (fst (state_of (loop_body (good_tick 60 200 1) (s2, None)))) =
               [BusWrite 1, Sleep 0.2, BusRead 200, BusWrite 2, Sleep 0.2, BusRead 1,
                Append PowerLog (Reading 60 200 1), Append SampleLog (Reading 60 200 1), Sleep 5])"
  using failed_event_append_is_retried
    [of "armed 0 default_parameters" open_fails_tick 200 1 None "[good_tick 30 200 1]"
        "good_tick 60 200 1" 200]
  by (simp add: open_fails_tick_def run_defs)

text \<open>
  Claim C10, as stated, fails when the append raises at the closing of the file: the
  assignment to \<^verbatim>\<open>last_mode\<close> has run by then. The error is logged, \<^verbatim>\<open>last_mode\<close> becomes
  the new mode, and the next iteration past the period, reading the same mode, appends
  a sample line only and makes no attempt on the power-event log.
\<close>

theorem close_failure_counterexample:
  "snd (state_of (loop_body close_fails_tick (armed 0 default_parameters, None))) = Some 1
   \<and> trace (fst (state_of (main_loop [close_fails_tick, good_tick 60 200 1]
        (armed 0 default_parameters, None)))) =
       [BusWrite 1, Sleep 0.2, BusRead 200, BusWrite 2, Sleep 0.2, BusRead 1,
        LogError, Append SampleLog (Reading 0 200 1), Sleep 5,
        BusWrite 1, Sleep 0.2, BusRead 200, BusWrite 2, Sleep 0.2, BusRead 1,
        Append SampleLog (Reading 60 200 1), Sleep 5]"
  by (simp add: close_fails_tick_def run_defs)

end
